theory Spec2Isabelle
  imports Main
begin

section \<open>Data model of the record access service\<close>

text \<open>
  The development follows \<^verbatim>\<open>invenio_rdm_records/services/access/service.py\<close>
  (class \<^verbatim>\<open>RecordAccessService\<close>). Every service method is a function from the
  state it runs on to an outcome and the state it leaves behind; a raised exception is
  the \<open>Inl\<close> outcome, and the state returned with it is the state at the moment of the
  raise. Collaborators outside the file (permission policy, marshmallow schemas, the
  requests service, subject resolution) are fields of an environment record.

  A UTC-naive \<^verbatim>\<open>datetime\<close> is an integer number of microseconds; the conversion
  \<^verbatim>\<open>arrow.get(x).to("utc").datetime.replace(tzinfo=None)\<close> is the identity on it.
\<close>

type_synonym instant = int

datatype error =
    NoResultFound
  | PIDDoesNotExistError string
  | PermissionDeniedError "string option"
  | LookupError string
  | IndexError
  | ValueError
  | ValidationError string "string option"
  | DuplicateAccessRequestError "string list"

abbreviation msg_future :: string where
  "msg_future \<equiv> ''Expiration date must be set to the future''"

abbreviation msg_postpone :: string where
  "msg_postpone \<equiv> ''Cannot postpone expiration of links''"

abbreviation msg_required :: string where
  "msg_required \<equiv> ''An access permission level is required''"

abbreviation msg_invalid_level :: string where
  "msg_invalid_level \<equiv> ''Invalid access permission level.''"

abbreviation msg_subject :: string where
  "msg_subject \<equiv> ''Could not find the specified subject.''"

datatype need = authenticated_user | any_user | system_process | UserNeed string

record identity =
  identity_id :: string
  provides :: "need set"

record secret_link =
  link_id :: string
  permission_level :: string
  origin :: "string option"
  description :: string
  expires_at :: "instant option"
  extra_data :: "(string \<times> string) list"

record access_grant =
  subject_type :: string
  subject_id :: string
  permission :: string
  grant_origin :: "string option"

record parent =
  links :: "secret_link list"
  grants :: "access_grant list"
  owner :: "string option"

text \<open>
  A record (or draft) is a dictionary with a persistent identifier and a reference to
  its parent; \<^verbatim>\<open>if record:\<close> is the truth value of that dictionary.
\<close>

record rdm_record =
  pid :: string
  parent_of :: string
  json :: "(string \<times> string) list"

definition truthy_record :: "rdm_record \<Rightarrow> bool" where
  "truthy_record r = (json r \<noteq> [])"

text \<open>The payload of a secret link after schema loading: an absent key is \<open>None\<close>,
  and \<^verbatim>\<open>expires_at\<close> may be present with the value null (\<open>Some None\<close>).\<close>

record link_data =
  ld_expires_at :: "instant option option"
  ld_permission :: "string option"
  ld_origin :: "string option"
  ld_description :: "string option"
  ld_extra_data :: "(string \<times> string) list option"

text \<open>The payload of a grant: \<^verbatim>\<open>{"permission":, "subject": {"type":, "id":}, "origin":}\<close>,
  each key optional before loading.\<close>

record grant_data =
  gd_permission :: "string option"
  gd_subject :: "(string option \<times> string option) option"
  gd_origin :: "string option option"

datatype entity_ref = RefUser string | RefEmail string | RefRecord string

datatype request_type = UserAccessRequest | GuestAccessRequest | OtherRequest string

text \<open>A stored request, as the duplicate detection reads it: the JSON of the row may be
  missing, \<^verbatim>\<open>is_open\<close> is decided by the requests package.\<close>

record request_json =
  rj_type :: request_type
  rj_created_by :: entity_ref
  rj_topic :: entity_ref

record request =
  request_id :: string
  request_data :: "request_json option"
  is_open :: bool
  request_errors :: "string list"

text \<open>An access request token; the opaque token string is the key under which the
  store holds it.\<close>

record access_request_token =
  email :: string
  full_name :: string
  message :: "string option"
  record_pid :: string
  created :: instant
  shelf_life :: int

datatype commit_target = OfParent string | OfRecord string

datatype uow_op =
    RecordCommitOp commit_target
  | IndexRelatedRecords string string

record state =
  records :: "string \<rightharpoonup> rdm_record"
  drafts :: "string \<rightharpoonup> rdm_record"
  parents :: "string \<Rightarrow> parent"
  tokens :: "string \<rightharpoonup> access_request_token"
  requests :: "request list"
  uow :: "uow_op list"

type_synonym 'a outcome = "(error + 'a) \<times> state"

text \<open>
  The requests service (\<^verbatim>\<open>current_requests_service\<close>) works on the same database as
  the access service: \<^verbatim>\<open>create\<close> and \<^verbatim>\<open>execute_action\<close> are given the state as it is
  at the moment of the call and return the resulting request together with the new content
  of the request store. What such a call can observe therefore depends on what the access
  service has done before it.
\<close>

record request_payload =
  rp_permission :: string
  rp_message :: "string option"
  rp_email :: "string option"
  rp_full_name :: "string option"
  rp_token :: "string option"

record env =
  permits :: "identity \<Rightarrow> string \<Rightarrow> rdm_record \<Rightarrow> parent \<Rightarrow> bool"
  load_secret_link :: "link_data \<Rightarrow> string + link_data"
  load_grant :: "grant_data \<Rightarrow> string + grant_data"
  allowed_levels :: "string list"
  new_link_id :: "secret_link list \<Rightarrow> string"
  subject_resolves :: "string \<Rightarrow> string \<Rightarrow> bool"
  system_identity :: identity
  requests_create ::
    "identity \<Rightarrow> request_payload \<Rightarrow> request_type \<Rightarrow> string option \<Rightarrow> string option
      \<Rightarrow> rdm_record \<Rightarrow> state \<Rightarrow> request \<times> request list"
  requests_execute_action ::
    "identity \<Rightarrow> string \<Rightarrow> string \<Rightarrow> string \<Rightarrow> state \<Rightarrow> request \<times> request list"

section \<open>Shared helpers\<close>

definition get_parent_and_record_or_draft :: "state \<Rightarrow> string \<Rightarrow> error + (rdm_record \<times> parent)" where
  "get_parent_and_record_or_draft s rid =
     (case records s rid of
        Some r \<Rightarrow> Inr (r, parents s (parent_of r))
      | None \<Rightarrow>
          (case drafts s rid of
             Some r \<Rightarrow> Inr (r, parents s (parent_of r))
           | None \<Rightarrow> Inl NoResultFound))"

definition register :: "uow_op \<Rightarrow> state \<Rightarrow> state" where
  "register op s = s\<lparr>uow := uow s @ [op]\<rparr>"

text \<open>The three closing steps of every mutating method: commit the parent, commit the
  record if it is truthy, index the related records.\<close>

definition commit_and_index :: "rdm_record \<Rightarrow> parent \<Rightarrow> state \<Rightarrow> state" where
  "commit_and_index r p s =
     (let s1 = register (RecordCommitOp (OfParent (parent_of r)))
                 (s\<lparr>parents := (parents s)(parent_of r := p)\<rparr>);
          s2 = (if truthy_record r then register (RecordCommitOp (OfRecord (pid r))) s1 else s1)
      in register (IndexRelatedRecords (pid r) (parent_of r)) s2)"

text \<open>Python's \<^verbatim>\<open>list.index\<close>: the first position of the value, \<open>None\<close> where Python
  raises \<^verbatim>\<open>ValueError\<close>.\<close>

fun list_index :: "'a list \<Rightarrow> 'a \<Rightarrow> nat option" where
  "list_index [] x = None"
| "list_index (y # ys) x = (if y = x then Some 0 else map_option Suc (list_index ys x))"

section \<open>Secret links\<close>

text \<open>
  \<^verbatim>\<open>_validate_secret_link_expires_at\<close>. A \<^verbatim>\<open>datetime\<close> is always truthy, so the tests
  \<^verbatim>\<open>if expires_at\<close> and \<^verbatim>\<open>not expires_at\<close> distinguish a value from \<^verbatim>\<open>None\<close>. The
  method reads the clock twice, at the first check and again after the checks against the
  existing link: \<open>now\<close> and \<open>now'\<close> are these two readings.
  \<^verbatim>\<open>create_secret_link\<close> passes no link, so only the first reading is used there.
\<close>

definition validate_secret_link_expires_at ::
  "instant \<Rightarrow> instant \<Rightarrow> instant option \<Rightarrow> bool \<Rightarrow> secret_link option \<Rightarrow> error + instant option" where
  "validate_secret_link_expires_at now now' expires is_specified secret_link =
     (if expires \<noteq> None \<and> is_specified \<and> the expires < now
      then Inl (ValidationError msg_future (Some ''expires_at''))
      else
        (case secret_link of
           None \<Rightarrow> Inr expires
         | Some link \<Rightarrow>
             (let introduces_expiration =
                    (is_specified \<and> expires = None \<and> expires_at link \<noteq> None);
                  extends_existing_expiration =
                    (case (expires, expires_at link) of
                       (Some t, Some e) \<Rightarrow> e < t
                     | _ \<Rightarrow> False);
                  increases_expiration = (introduces_expiration \<or> extends_existing_expiration)
              in if increases_expiration
                 then Inl (ValidationError msg_postpone (Some ''expires_at''))
                 else if (case expires of Some t \<Rightarrow> t < now' | None \<Rightarrow> False)
                 then Inl (ValidationError msg_future (Some ''expires_at''))
                 else Inr expires)))"

text \<open>
  Modelled from the spec: \<^verbatim>\<open>parent.access.links.create\<close> is not part of the source
  at hand. The spec says it "constructs a SecretLink on the parent's link collection" and
  "fails with an invalid-permission-level error if the requested level is not in the
  allowed set"; positions grow by appending. \<open>None\<close> is the
  \<^verbatim>\<open>InvalidPermissionLevelError\<close>.
\<close>

definition links_create ::
  "env \<Rightarrow> parent \<Rightarrow> string \<Rightarrow> string option \<Rightarrow> string \<Rightarrow> instant option
     \<Rightarrow> (string \<times> string) list \<Rightarrow> (secret_link \<times> parent) option" where
  "links_create env p level orig descr expires extra =
     (if level \<notin> set (allowed_levels env) then None
      else
        (let link = \<lparr>link_id = new_link_id env (links p), permission_level = level,
                      origin = orig, description = descr, expires_at = expires,
                      extra_data = extra\<rparr>
         in Some (link, p\<lparr>links := links p @ [link]\<rparr>)))"

definition create_secret_link ::
  "env \<Rightarrow> instant \<Rightarrow> identity \<Rightarrow> string \<Rightarrow> link_data \<Rightarrow> state \<Rightarrow> secret_link outcome" where
  "create_secret_link env now ident rid raw s =
     (case get_parent_and_record_or_draft s rid of
        Inl e \<Rightarrow> (Inl e, s)
      | Inr (rec, par) \<Rightarrow>
          if \<not> permits env ident ''manage'' rec par
          then (Inl (PermissionDeniedError (Some ''manage'')), s)
          else
            (case load_secret_link env raw of
               Inl m \<Rightarrow> (Inl (ValidationError m None), s)
             | Inr data \<Rightarrow>
                 (case validate_secret_link_expires_at now now
                         (case ld_expires_at data of None \<Rightarrow> None | Some v \<Rightarrow> v) True None of
                    Inl e \<Rightarrow> (Inl e, s)
                  | Inr expires \<Rightarrow>
                      (case ld_permission data of
                         None \<Rightarrow> (Inl (ValidationError msg_required (Some ''permission'')), s)
                       | Some level \<Rightarrow>
                           (case links_create env par level (ld_origin data)
                                   (case ld_description data of None \<Rightarrow> [] | Some d \<Rightarrow> d)
                                   expires
                                   (case ld_extra_data data of None \<Rightarrow> [] | Some x \<Rightarrow> x) of
                              None \<Rightarrow>
                                (Inl (ValidationError msg_invalid_level (Some ''permission'')), s)
                            | Some (link, par') \<Rightarrow>
                                (Inr link, commit_and_index rec par' s))))))"

definition update_secret_link ::
  "env \<Rightarrow> instant \<Rightarrow> instant \<Rightarrow> identity \<Rightarrow> string \<Rightarrow> string \<Rightarrow> link_data \<Rightarrow> state
     \<Rightarrow> secret_link outcome" where
  "update_secret_link env now now' ident rid lid raw s =
     (case get_parent_and_record_or_draft s rid of
        Inl e \<Rightarrow> (Inl e, s)
      | Inr (rec, par) \<Rightarrow>
          if \<not> permits env ident ''manage'' rec par
          then (Inl (PermissionDeniedError (Some ''manage'')), s)
          else if lid \<notin> set (map link_id (links par)) then (Inl (LookupError lid), s)
          else
            (case list_index (map link_id (links par)) lid of
               None \<Rightarrow> (Inl ValueError, s)
             | Some link_idx \<Rightarrow>
                 (let link = links par ! link_idx in
                  case load_secret_link env raw of
                    Inl m \<Rightarrow> (Inl (ValidationError m None), s)
                  | Inr data \<Rightarrow>
                      (case validate_secret_link_expires_at now now'
                              (case ld_expires_at data of None \<Rightarrow> None | Some v \<Rightarrow> v)
                              (ld_expires_at data \<noteq> None) (Some link) of
                         Inl e \<Rightarrow> (Inl e, s)
                       | Inr expires \<Rightarrow>
                           (let link' = link
                                  \<lparr>permission_level :=
                                     (case ld_permission data of
                                        None \<Rightarrow> permission_level link
                                      | Some p \<Rightarrow> if p = [] then permission_level link else p),
                                   description :=
                                     (case ld_description data of
                                        None \<Rightarrow> description link
                                      | Some d \<Rightarrow> d),
                                   expires_at :=
                                     (case expires of
                                        None \<Rightarrow> expires_at link
                                      | Some t \<Rightarrow> Some t)\<rparr>;
                                par' = par\<lparr>links := (links par)[link_idx := link']\<rparr>
                            in (Inr link', commit_and_index rec par' s))))))"

section \<open>Access grants\<close>

text \<open>Python's \<^verbatim>\<open>str\<close> of an integer, which the not-found error of a grant carries.\<close>

fun str_nat :: "nat \<Rightarrow> string" where
  "str_nat n =
     (if n < 10 then [char_of (48 + n)]
      else str_nat (n div 10) @ [char_of (48 + n mod 10)])"

definition str_int :: "int \<Rightarrow> string" where
  "str_int i = (if i < 0 then CHR ''-'' # str_nat (nat (- i)) else str_nat (nat i))"

text \<open>Python list indexing, assignment and \<^verbatim>\<open>pop\<close>: a negative index counts from the
  end, an index outside \<open>[-n, n)\<close> raises \<^verbatim>\<open>IndexError\<close>.\<close>

definition py_index :: "'a list \<Rightarrow> int \<Rightarrow> nat option" where
  "py_index xs i =
     (if 0 \<le> i \<and> i < int (length xs) then Some (nat i)
      else if i < 0 \<and> - int (length xs) \<le> i then Some (nat (int (length xs) + i))
      else None)"

definition py_get :: "'a list \<Rightarrow> int \<Rightarrow> error + 'a" where
  "py_get xs i = (case py_index xs i of None \<Rightarrow> Inl IndexError | Some j \<Rightarrow> Inr (xs ! j))"

definition py_set :: "'a list \<Rightarrow> int \<Rightarrow> 'a \<Rightarrow> error + 'a list" where
  "py_set xs i v = (case py_index xs i of None \<Rightarrow> Inl IndexError | Some j \<Rightarrow> Inr (xs[j := v]))"

definition py_pop :: "'a list \<Rightarrow> int \<Rightarrow> error + 'a list" where
  "py_pop xs i =
     (case py_index xs i of
        None \<Rightarrow> Inl IndexError
      | Some j \<Rightarrow> Inr (take j xs @ drop (Suc j) xs))"

definition read_grant :: "env \<Rightarrow> identity \<Rightarrow> string \<Rightarrow> int \<Rightarrow> state \<Rightarrow> access_grant outcome" where
  "read_grant env ident rid grant_id s =
     (case get_parent_and_record_or_draft s rid of
        Inl e \<Rightarrow> (Inl e, s)
      | Inr (rec, par) \<Rightarrow>
          if \<not> permits env ident ''manage'' rec par
          then (Inl (PermissionDeniedError (Some ''manage'')), s)
          else if \<not> (0 \<le> grant_id \<and> grant_id < int (length (grants par)))
          then (Inl (LookupError (str_int grant_id)), s)
          else
            (case py_get (grants par) grant_id of
               Inl e \<Rightarrow> (Inl e, s)
             | Inr grant \<Rightarrow> (Inr grant, s)))"

text \<open>
  \<^verbatim>\<open>update_grant\<close> reads the old grant by plain indexing, outside any \<^verbatim>\<open>try\<close>.
  The construction of the new grant sits inside \<^verbatim>\<open>try ... except LookupError\<close>,
  and so do the subscriptions \<^verbatim>\<open>data["origin"]\<close>, \<^verbatim>\<open>data["permission"]\<close>,
  \<^verbatim>\<open>data["subject"]["type"]\<close> and \<^verbatim>\<open>data["subject"]["id"]\<close> that build its
  arguments: a missing key raises \<^verbatim>\<open>KeyError\<close>, a subclass of
  \<^verbatim>\<open>LookupError\<close>, and ends in the same validation error as a subject that does not
  resolve.
\<close>

definition merge_partial :: "grant_data \<Rightarrow> access_grant \<Rightarrow> grant_data" where
  "merge_partial raw old_grant =
     \<lparr>gd_permission =
        Some (case gd_permission raw of None \<Rightarrow> permission old_grant | Some p \<Rightarrow> p),
      gd_subject =
        Some (Some (case gd_subject raw of
                      None \<Rightarrow> subject_type old_grant
                    | Some (ty, _) \<Rightarrow> (case ty of None \<Rightarrow> subject_type old_grant | Some t \<Rightarrow> t)),
              Some (case gd_subject raw of
                      None \<Rightarrow> subject_id old_grant
                    | Some (_, sid) \<Rightarrow> (case sid of None \<Rightarrow> subject_id old_grant | Some i \<Rightarrow> i))),
      gd_origin =
        Some (case gd_origin raw of None \<Rightarrow> grant_origin old_grant | Some v \<Rightarrow> v)\<rparr>"

definition grant_cls_create :: "env \<Rightarrow> grant_data \<Rightarrow> access_grant option" where
  "grant_cls_create env data =
     (case gd_origin data of
        None \<Rightarrow> None
      | Some orig \<Rightarrow>
          (case gd_permission data of
             None \<Rightarrow> None
           | Some perm \<Rightarrow>
               (case gd_subject data of
                  None \<Rightarrow> None
                | Some (ty, sid) \<Rightarrow>
                    (case ty of
                       None \<Rightarrow> None
                     | Some t \<Rightarrow>
                         (case sid of
                            None \<Rightarrow> None
                          | Some i \<Rightarrow>
                              if subject_resolves env t i
                              then Some \<lparr>subject_type = t, subject_id = i, permission = perm,
                                         grant_origin = orig\<rparr>
                              else None)))))"

definition update_grant ::
  "env \<Rightarrow> identity \<Rightarrow> string \<Rightarrow> int \<Rightarrow> grant_data \<Rightarrow> bool \<Rightarrow> state \<Rightarrow> access_grant outcome" where
  "update_grant env ident rid grant_id raw partial s =
     (case get_parent_and_record_or_draft s rid of
        Inl e \<Rightarrow> (Inl e, s)
      | Inr (rec, par) \<Rightarrow>
          if \<not> permits env ident ''manage'' rec par
          then (Inl (PermissionDeniedError (Some ''manage'')), s)
          else
            (case py_get (grants par) grant_id of
               Inl e \<Rightarrow> (Inl e, s)
             | Inr old_grant \<Rightarrow>
                 (case load_grant env (if partial then merge_partial raw old_grant else raw) of
                    Inl m \<Rightarrow> (Inl (ValidationError m None), s)
                  | Inr data \<Rightarrow>
                      (case grant_cls_create env data of
                         None \<Rightarrow> (Inl (ValidationError msg_subject (Some ''subject.id'')), s)
                       | Some new_grant \<Rightarrow>
                           (case py_set (grants par) grant_id new_grant of
                              Inl e \<Rightarrow> (Inl e, s)
                            | Inr gs \<Rightarrow>
                                (Inr new_grant,
                                 commit_and_index rec (par\<lparr>grants := gs\<rparr>) s))))))"

definition delete_grant :: "env \<Rightarrow> identity \<Rightarrow> string \<Rightarrow> int \<Rightarrow> state \<Rightarrow> bool outcome" where
  "delete_grant env ident rid grant_id s =
     (case get_parent_and_record_or_draft s rid of
        Inl e \<Rightarrow> (Inl e, s)
      | Inr (rec, par) \<Rightarrow>
          if \<not> permits env ident ''manage'' rec par
          then (Inl (PermissionDeniedError (Some ''manage'')), s)
          else if \<not> (0 \<le> grant_id \<and> grant_id < int (length (grants par)))
          then (Inl (LookupError (str_int grant_id)), s)
          else
            (case py_pop (grants par) grant_id of
               Inl e \<Rightarrow> (Inl e, s)
             | Inr gs \<Rightarrow> (Inr True, commit_and_index rec (par\<lparr>grants := gs\<rparr>) s)))"

section \<open>Access requests\<close>

text \<open>The duplicate detection: the query keeps the rows whose \<^verbatim>\<open>created_by\<close> and
  \<^verbatim>\<open>topic\<close> match, the comprehension keeps those with data of the given request
  type, and of these the open ones.\<close>

definition open_duplicates ::
  "request_type \<Rightarrow> entity_ref \<Rightarrow> entity_ref \<Rightarrow> request list \<Rightarrow> request list" where
  "open_duplicates ty creator topic rs =
     filter is_open
       (filter (\<lambda>rm. case request_data rm of None \<Rightarrow> False | Some j \<Rightarrow> rj_type j = ty)
          (filter (\<lambda>rm. case request_data rm of
                           None \<Rightarrow> False
                         | Some j \<Rightarrow> rj_created_by j = creator \<and> rj_topic j = topic) rs))"

definition pid_resolve :: "state \<Rightarrow> string \<Rightarrow> error + rdm_record" where
  "pid_resolve s rid =
     (case records s rid of None \<Rightarrow> Inl (PIDDoesNotExistError rid) | Some r \<Rightarrow> Inr r)"

definition create_user_access_request ::
  "env \<Rightarrow> identity \<Rightarrow> string \<Rightarrow> string option \<Rightarrow> state \<Rightarrow> request outcome" where
  "create_user_access_request env ident rid msg s =
     (case pid_resolve s rid of
        Inl e \<Rightarrow> (Inl e, s)
      | Inr rec \<Rightarrow>
          if \<not> permits env ident ''read'' rec (parents s (parent_of rec))
          then (Inl (PermissionDeniedError (Some ''read'')), s)
          else
            (let denied = \<not> permits env ident ''read_files'' rec (parents s (parent_of rec)) in
             if \<not> denied then (Inl (PermissionDeniedError None), s)
             else
               (let reqs = open_duplicates UserAccessRequest (RefUser (identity_id ident))
                             (RefRecord rid) (requests s) in
                if reqs \<noteq> [] then (Inl (DuplicateAccessRequestError (map request_id reqs)), s)
                else
                  (case pid_resolve s rid of
                     Inl e \<Rightarrow> (Inl e, s)
                   | Inr rec \<Rightarrow>
                       (let data = \<lparr>rp_permission = ''view'', rp_message = msg,
                                     rp_email = None, rp_full_name = None, rp_token = None\<rparr>;
                            receiver = owner (parents s (parent_of rec));
                            (request, rs1) =
                              requests_create env ident data UserAccessRequest receiver None rec s
                        in if request_errors request \<noteq> []
                           then (Inr request, s\<lparr>requests := rs1\<rparr>)
                           else
                             (let (submitted, rs2) =
                                    requests_execute_action env ident (request_id request)
                                      ''submit'' (case msg of None \<Rightarrow> [] | Some m \<Rightarrow> m)
                                      (s\<lparr>requests := rs1\<rparr>)
                              in (Inr submitted, s\<lparr>requests := rs2\<rparr>)))))))"

text \<open>
  Modelled from the spec: the class \<^verbatim>\<open>AccessRequestToken\<close> is not part of the source
  at hand. The spec describes a token store with fetch-by-token and delete, tokens with a
  creation time and a shelf life that are "consumed and deleted exactly once upon
  successful redemption, otherwise expire and become unresolvable", and a fetch that finds
  nothing "if the token is unknown/expired".
\<close>

definition is_expired :: "access_request_token \<Rightarrow> instant \<Rightarrow> bool" where
  "is_expired t now = (created t + shelf_life t < now)"

definition get_by_token :: "state \<Rightarrow> instant \<Rightarrow> string \<Rightarrow> access_request_token option" where
  "get_by_token s now tok =
     (case tokens s tok of
        None \<Rightarrow> None
      | Some t \<Rightarrow> if is_expired t now then None else Some t)"

definition token_delete :: "string \<Rightarrow> state \<Rightarrow> state" where
  "token_delete tok s = s\<lparr>tokens := (tokens s)(tok := None)\<rparr>"

definition create_guest_access_request ::
  "env \<Rightarrow> instant \<Rightarrow> identity \<Rightarrow> string \<Rightarrow> state \<Rightarrow> request option outcome" where
  "create_guest_access_request env now ident tok s =
     (if authenticated_user \<in> provides ident
      then (Inl (PermissionDeniedError (Some ''request_guest_access'')), s)
      else
        (case get_by_token s now tok of
           None \<Rightarrow> (Inr None, s)
         | Some access_token \<Rightarrow>
             (case pid_resolve s (record_pid access_token) of
                Inl e \<Rightarrow> (Inl e, s)
              | Inr rec \<Rightarrow>
                  (let reqs = open_duplicates GuestAccessRequest (RefEmail (email access_token))
                                (RefRecord (record_pid access_token)) (requests s) in
                   if reqs \<noteq> [] then (Inl (DuplicateAccessRequestError (map request_id reqs)), s)
                   else
                     (let msg = (case message access_token of None \<Rightarrow> [] | Some m \<Rightarrow> m);
                          data = \<lparr>rp_permission = ''view'', rp_message = Some msg,
                                   rp_email = Some (email access_token),
                                   rp_full_name = Some (full_name access_token),
                                   rp_token = Some tok\<rparr>;
                          receiver = owner (parents s (parent_of rec));
                          s1 = token_delete tok s;
                          (request, rs1) =
                            requests_create env (system_identity env) data GuestAccessRequest
                              receiver (Some (email access_token)) rec s1
                      in if request_errors request \<noteq> []
                         then (Inr (Some request), s1\<lparr>requests := rs1\<rparr>)
                         else
                           (let comment = full_name access_token @ '' ('' @ email access_token
                                            @ '') commented'' @ '': '' @ msg;
                                (submitted, rs2) =
                                  requests_execute_action env (system_identity env)
                                    (request_id request) ''submit'' comment
                                    (s1\<lparr>requests := rs1\<rparr>)
                            in (Inr (Some submitted), s1\<lparr>requests := rs2\<rparr>)))))))"

section \<open>Example data\<close>

text \<open>A record with two secret links and three grants, a service whose policy grants
  \<^verbatim>\<open>manage\<close> and \<^verbatim>\<open>read\<close> to everyone, and a requests service that stores what it
  creates, opens a request when it is submitted, and reports an error on a request whose
  payload names a token that it still finds in the token store.\<close>

definition ex_identity :: identity where
  "ex_identity = \<lparr>identity_id = ''7'', provides = {any_user, authenticated_user, UserNeed ''7''}\<rparr>"

definition ex_link :: secret_link where
  "ex_link = \<lparr>link_id = ''L1'', permission_level = ''view'', origin = None,
               description = ''shared'', expires_at = Some 10, extra_data = []\<rparr>"

definition ex_link_open :: secret_link where
  "ex_link_open = \<lparr>link_id = ''L2'', permission_level = ''view'', origin = None,
               description = [], expires_at = None, extra_data = []\<rparr>"

definition ex_grants :: "access_grant list" where
  "ex_grants =
     [\<lparr>subject_type = ''user'', subject_id = ''1'', permission = ''view'', grant_origin = None\<rparr>,
      \<lparr>subject_type = ''user'', subject_id = ''2'', permission = ''edit'', grant_origin = None\<rparr>,
      \<lparr>subject_type = ''role'', subject_id = ''admin'', permission = ''manage'', grant_origin = None\<rparr>]"

definition ex_parent :: parent where
  "ex_parent = \<lparr>links = [ex_link, ex_link_open], grants = ex_grants, owner = Some ''1''\<rparr>"

definition ex_record :: rdm_record where
  "ex_record = \<lparr>pid = ''r1'', parent_of = ''p1'', json = [(''id'', ''r1'')]\<rparr>"

definition ex_token :: access_request_token where
  "ex_token = \<lparr>email = ''guest@example.org'', full_name = ''Guest'', message = Some ''please'',
                record_pid = ''r1'', created = 0, shelf_life = 1000\<rparr>"

definition ex_state :: state where
  "ex_state = \<lparr>records = [''r1'' \<mapsto> ex_record], drafts = Map.empty,
                parents = (\<lambda>_. ex_parent), tokens = [''tok1'' \<mapsto> ex_token], requests = [], uow = []\<rparr>"

definition ex_env :: env where
  "ex_env = \<lparr>permits = (\<lambda>i a r p. a \<in> {''manage'', ''read''}),
              load_secret_link = Inr, load_grant = Inr,
              allowed_levels = [''view'', ''preview'', ''edit''],
              new_link_id = (\<lambda>ls. ''N'' @ concat (map link_id ls)),
              subject_resolves = (\<lambda>t i. True),
              system_identity = \<lparr>identity_id = ''system'', provides = {system_process}\<rparr>,
              requests_create = (\<lambda>i p t rcv cr r st.
                 (let q = \<lparr>request_id = ''q'' @ concat (map request_id (requests st)),
                            request_data = Some \<lparr>rj_type = t,
                               rj_created_by = (case cr of None \<Rightarrow> RefUser (identity_id i) | Some e \<Rightarrow> RefEmail e),
                               rj_topic = RefRecord (pid r)\<rparr>,
                            is_open = False,
                            request_errors =
                              (case rp_token p of
                                 None \<Rightarrow> []
                               | Some k \<Rightarrow> if tokens st k = None then []
                                           else [''token still stored''])\<rparr>
                  in (q, requests st @ [q]))),
              requests_execute_action = (\<lambda>i q a c st.
                 (case filter (\<lambda>x. request_id x = q) (requests st) of
                    [] \<Rightarrow> (\<lparr>request_id = q, request_data = None, is_open = False,
                            request_errors = [''missing'']\<rparr>, requests st)
                  | x # _ \<Rightarrow> (x\<lparr>is_open := True\<rparr>,
                       map (\<lambda>y. if request_id y = q then y\<lparr>is_open := True\<rparr> else y)
                         (requests st))))\<rparr>"

definition data_expires :: "instant option option \<Rightarrow> link_data" where
  "data_expires v = \<lparr>ld_expires_at = v, ld_permission = None, ld_origin = None,
                     ld_description = None, ld_extra_data = None\<rparr>"

definition ex_patch :: grant_data where
  "ex_patch = \<lparr>gd_permission = Some ''view'', gd_subject = None, gd_origin = None\<rparr>"

definition ex_guest :: identity where
  "ex_guest = \<lparr>identity_id = ''None'', provides = {any_user}\<rparr>"

text \<open>The requests that collide with a new user access request: those of that type whose
  creator is the user and whose topic is the record.\<close>

definition user_request_of :: "identity \<Rightarrow> string \<Rightarrow> request \<Rightarrow> bool" where
  "user_request_of ident rid q =
     (case request_data q of
        None \<Rightarrow> False
      | Some j \<Rightarrow> rj_type j = UserAccessRequest
                 \<and> rj_created_by j = RefUser (identity_id ident)
                 \<and> rj_topic j = RefRecord rid)"

definition guest_request_of :: "string \<Rightarrow> string \<Rightarrow> request \<Rightarrow> bool" where
  "guest_request_of mail rid q =
     (case request_data q of
        None \<Rightarrow> False
      | Some j \<Rightarrow> rj_type j = GuestAccessRequest
                 \<and> rj_created_by j = RefEmail mail
                 \<and> rj_topic j = RefRecord rid)"

definition ex_request :: "string \<Rightarrow> request_type \<Rightarrow> entity_ref \<Rightarrow> request" where
  "ex_request qid ty creator =
     \<lparr>request_id = qid,
      request_data = Some \<lparr>rj_type = ty, rj_created_by = creator, rj_topic = RefRecord ''r1''\<rparr>,
      is_open = True, request_errors = []\<rparr>"

text \<open>The state in which every stored request has been closed.\<close>

definition close_all :: "state \<Rightarrow> state" where
  "close_all s = s\<lparr>requests := map (\<lambda>q. q\<lparr>is_open := False\<rparr>) (requests s)\<rparr>"

definition ex_guest_payload :: request_payload where
  "ex_guest_payload = \<lparr>rp_permission = ''view'', rp_message = Some ''please'',
                         rp_email = Some ''guest@example.org'', rp_full_name = Some ''Guest'',
                         rp_token = Some ''tok1''\<rparr>"

section \<open>Auxiliary facts\<close>

lemmas ex_defs = ex_state_def ex_env_def ex_parent_def ex_link_def ex_link_open_def
  ex_record_def ex_identity_def ex_token_def ex_grants_def data_expires_def

lemma list_index_Some:
  "list_index xs x = Some i \<Longrightarrow> i < length xs \<and> xs ! i = x"
proof (induction xs arbitrary: i)
  case Nil
  then show ?case by simp
next
  case (Cons y ys)
  then show ?case by (auto split: if_splits)
qed

lemma list_index_found: "x \<in> set xs \<Longrightarrow> \<exists>i. list_index xs x = Some i"
  by (induction xs) auto

lemma list_index_member: "list_index xs x = Some i \<Longrightarrow> x \<in> set xs"
  using list_index_Some [of xs x i] nth_mem by fastforce

lemma get_parent_state_indep:
  "records s' = records s \<Longrightarrow> drafts s' = drafts s \<Longrightarrow>
   get_parent_and_record_or_draft s rid = Inr (rec, par) \<Longrightarrow>
   get_parent_and_record_or_draft s' rid = Inr (rec, parents s' (parent_of rec))"
  by (auto simp: get_parent_and_record_or_draft_def split: option.splits)

lemma commit_and_index_fields:
  "records (commit_and_index r p s) = records s"
  "drafts (commit_and_index r p s) = drafts s"
  "tokens (commit_and_index r p s) = tokens s"
  "requests (commit_and_index r p s) = requests s"
  "parents (commit_and_index r p s) = (parents s)(parent_of r := p)"
  by (simp_all add: commit_and_index_def register_def Let_def)

text \<open>
  Claim C1, as the code has it. For an existing link that the caller may manage and a
  payload that loads, \<^verbatim>\<open>update_secret_link\<close> raises the validation error "Cannot
  postpone expiration of links" when the payload sets \<^verbatim>\<open>expires_at\<close> to null on a
  link that has an expiration, and when it sets an instant later than the link's
  expiration that is not before the first clock reading. A later instant that lies before
  the clock reading is rejected as well, by the check that comes first, with "Expiration
  date must be set to the future". An omitted \<^verbatim>\<open>expires_at\<close>, a link without
  expiration and an instant not later than the stored one never raise the postponement
  error.
\<close>

theorem update_secret_link_postpone_rule:
  assumes "get_parent_and_record_or_draft s rid = Inr (rec, par)"
    and "permits env ident ''manage'' rec par"
    and "list_index (map link_id (links par)) lid = Some i"
    and "load_secret_link env raw = Inr data"
  shows "(ld_expires_at data = Some None \<and> expires_at (links par ! i) \<noteq> None
            \<longrightarrow> update_secret_link env now now' ident rid lid raw s
                  = (Inl (ValidationError msg_postpone (Some ''expires_at'')), s))
       \<and> (\<forall>t e. ld_expires_at data = Some (Some t) \<and> expires_at (links par ! i) = Some e
                  \<and> e < t \<and> now \<le> t
            \<longrightarrow> update_secret_link env now now' ident rid lid raw s
                  = (Inl (ValidationError msg_postpone (Some ''expires_at'')), s))
       \<and> (\<forall>t e. ld_expires_at data = Some (Some t) \<and> expires_at (links par ! i) = Some e
                  \<and> e < t \<and> t < now
            \<longrightarrow> update_secret_link env now now' ident rid lid raw s
                  = (Inl (ValidationError msg_future (Some ''expires_at'')), s))
       \<and> (ld_expires_at data = None \<or> expires_at (links par ! i) = None
            \<or> (\<exists>t e. ld_expires_at data = Some (Some t) \<and> expires_at (links par ! i) = Some e
                      \<and> t \<le> e)
            \<longrightarrow> fst (update_secret_link env now now' ident rid lid raw s)
                  \<noteq> Inl (ValidationError msg_postpone (Some ''expires_at'')))"
proof -
  have mem: "lid \<in> set (map link_id (links par))"
    using assms(3) by (rule list_index_member)
  show ?thesis
    using assms mem
    by (auto simp: update_secret_link_def validate_secret_link_expires_at_def Let_def
             split: option.splits)
qed

lemma ex_resolve: "get_parent_and_record_or_draft ex_state ''r1'' = Inr (ex_record, ex_parent)"
  by (simp add: get_parent_and_record_or_draft_def ex_state_def)

lemma ex_permits: "permits ex_env i ''manage'' r p"
  by (simp add: ex_env_def)

lemma ex_index_L1: "list_index (map link_id (links ex_parent)) ''L1'' = Some 0"
  by (simp add: ex_parent_def ex_link_def)

lemma ex_index_L2: "list_index (map link_id (links ex_parent)) ''L2'' = Some 1"
  by (simp add: ex_parent_def ex_link_def ex_link_open_def)

lemma ex_load: "load_secret_link ex_env d = Inr d"
  by (simp add: ex_env_def)

theorem update_secret_link_postpone_rule_witness:
  "update_secret_link ex_env 5 5 ex_identity ''r1'' ''L1'' (data_expires (Some None)) ex_state
     = (Inl (ValidationError msg_postpone (Some ''expires_at'')), ex_state)
   \<and> update_secret_link ex_env 5 5 ex_identity ''r1'' ''L1'' (data_expires (Some (Some 20))) ex_state
     = (Inl (ValidationError msg_postpone (Some ''expires_at'')), ex_state)
   \<and> fst (update_secret_link ex_env 5 5 ex_identity ''r1'' ''L1'' (data_expires (Some (Some 8))) ex_state)
     \<noteq> Inl (ValidationError msg_postpone (Some ''expires_at''))"
proof -
  have e: "expires_at (links ex_parent ! 0) = Some 10"
    by (simp add: ex_parent_def ex_link_def)
  have a: "ld_expires_at (data_expires v) = v" for v
    by (simp add: data_expires_def)
  note r = update_secret_link_postpone_rule [OF ex_resolve ex_permits ex_index_L1 ex_load,
      where now = 5 and now' = 5 and ident = ex_identity]
  from r [of "data_expires (Some None)"] r [of "data_expires (Some (Some 20))"]
    r [of "data_expires (Some (Some 8))"]
  show ?thesis
    by (simp add: e a)
qed

text \<open>
  The claim as written names the postponement error for every later instant. On a link
  that expired at 10, at time 100, the later instant 50 is rejected with the other
  message.
\<close>

theorem update_secret_link_later_but_past_counterexample:
  "expires_at ex_link = Some 10 \<and> (10::int) < 50
   \<and> update_secret_link ex_env 100 100 ex_identity ''r1'' ''L1'' (data_expires (Some (Some 50))) ex_state
     = (Inl (ValidationError msg_future (Some ''expires_at'')), ex_state)
   \<and> fst (update_secret_link ex_env 100 100 ex_identity ''r1'' ''L1''
            (data_expires (Some (Some 50))) ex_state)
     \<noteq> Inl (ValidationError msg_postpone (Some ''expires_at''))"
  by (simp add: update_secret_link_def validate_secret_link_expires_at_def
        get_parent_and_record_or_draft_def Let_def ex_defs)


lemma validate_accepts:
  "validate_secret_link_expires_at now now' v spec sl = Inr w \<Longrightarrow> w = v"
  by (auto simp: validate_secret_link_expires_at_def Let_def split: if_splits option.splits)

lemma validate_update_monotone:
  assumes "validate_secret_link_expires_at now now' v spec (Some link) = Inr w"
    and "expires_at link = Some e"
  shows "\<exists>t. (case v of None \<Rightarrow> expires_at link | Some t \<Rightarrow> Some t) = Some t \<and> t \<le> e"
  using assms
  by (cases v) (auto simp: validate_secret_link_expires_at_def Let_def split: if_splits)

text \<open>
  Claim C2, as the code has it. When \<^verbatim>\<open>update_secret_link\<close> succeeds, the link
  returned is the one stored at the position of the old link; if the old link had an
  expiration, the new one has an expiration too and it is not later; if the old link had
  none, the new expiration is whatever the payload supplied, so an update may introduce
  an expiration.
\<close>

theorem update_secret_link_expiration_monotone:
  assumes "get_parent_and_record_or_draft s rid = Inr (rec, par)"
    and "list_index (map link_id (links par)) lid = Some i"
    and "load_secret_link env raw = Inr data"
    and "update_secret_link env now now' ident rid lid raw s = (Inr link', s')"
  shows "links (parents s' (parent_of rec)) = (links par)[i := link']
       \<and> (\<forall>e. expires_at (links par ! i) = Some e
              \<longrightarrow> (\<exists>t. expires_at link' = Some t \<and> t \<le> e))
       \<and> (expires_at (links par ! i) = None
              \<longrightarrow> expires_at link' = (case ld_expires_at data of None \<Rightarrow> None | Some v \<Rightarrow> v))"
proof -
  let ?v = "case ld_expires_at data of None \<Rightarrow> None | Some v \<Rightarrow> v"
  let ?old = "links par ! i"
  from assms obtain w where
    val: "validate_secret_link_expires_at now now' ?v (ld_expires_at data \<noteq> None) (Some ?old) = Inr w"
    and link': "expires_at link' = (case w of None \<Rightarrow> expires_at ?old | Some t \<Rightarrow> Some t)"
    and s': "parents s' = (parents s)(parent_of rec := par\<lparr>links := (links par)[i := link']\<rparr>)"
    by (auto simp: update_secret_link_def Let_def commit_and_index_fields
             split: if_splits sum.splits)
  have w: "w = ?v" using val by (rule validate_accepts)
  have "links (parents s' (parent_of rec)) = (links par)[i := link']"
    using s' by simp
  moreover have "\<exists>t. expires_at link' = Some t \<and> t \<le> e" if "expires_at ?old = Some e" for e
    using validate_update_monotone [OF val that] link' w by simp
  moreover have "expires_at link' = ?v" if "expires_at ?old = None"
    using link' w that by (simp split: option.splits)
  ultimately show ?thesis by blast
qed

theorem update_secret_link_expiration_monotone_witness:
  "fst (update_secret_link ex_env 5 5 ex_identity ''r1'' ''L1'' (data_expires (Some (Some 8))) ex_state)
     = Inr (ex_link\<lparr>expires_at := Some 8\<rparr>)
   \<and> expires_at (links ex_parent ! 0) = Some 10
   \<and> (\<exists>t. expires_at (ex_link\<lparr>expires_at := Some 8\<rparr>) = Some t \<and> t \<le> 10)"
proof -
  let ?run = "update_secret_link ex_env 5 5 ex_identity ''r1'' ''L1''
                (data_expires (Some (Some 8))) ex_state"
  have res: "fst ?run = Inr (ex_link\<lparr>expires_at := Some 8\<rparr>)"
    by (simp add: update_secret_link_def validate_secret_link_expires_at_def
        get_parent_and_record_or_draft_def Let_def ex_defs)
  then have run: "?run = (Inr (ex_link\<lparr>expires_at := Some 8\<rparr>), snd ?run)"
    by (metis prod.collapse)
  have old: "expires_at (links ex_parent ! 0) = Some 10"
    by (simp add: ex_parent_def ex_link_def)
  from update_secret_link_expiration_monotone [OF ex_resolve ex_index_L1 ex_load run] old res
  show ?thesis by simp
qed

text \<open>
  The claim as written says that an update never introduces an expiration: the link
  \<^verbatim>\<open>L2\<close> has none, and the update to the future instant 200 succeeds and stores it.
\<close>

theorem update_secret_link_introduces_expiration_counterexample:
  "expires_at ex_link_open = None
   \<and> fst (update_secret_link ex_env 100 100 ex_identity ''r1'' ''L2''
            (data_expires (Some (Some 200))) ex_state)
     = Inr (ex_link_open\<lparr>expires_at := Some 200\<rparr>)"
  by (simp add: update_secret_link_def validate_secret_link_expires_at_def
        get_parent_and_record_or_draft_def Let_def ex_defs)


lemma validate_rejects_past:
  "t < now \<Longrightarrow>
   validate_secret_link_expires_at now now' (Some t) True sl
     = Inl (ValidationError msg_future (Some ''expires_at''))"
  by (simp add: validate_secret_link_expires_at_def)

lemma validate_accepted_not_past:
  "validate_secret_link_expires_at now now' (Some t) True sl = Inr w \<Longrightarrow> now \<le> t"
  by (auto simp: validate_secret_link_expires_at_def split: if_splits)

lemma validate_update_accepted_not_past:
  "validate_secret_link_expires_at now now' (Some t) True (Some link) = Inr w \<Longrightarrow> now' \<le> t"
  by (auto simp: validate_secret_link_expires_at_def Let_def split: if_splits option.splits)

text \<open>
  Claim C3, as the code has it. The comparison is \<^verbatim>\<open>expires_at < datetime.utcnow()\<close>:
  a supplied instant carried by a successful \<^verbatim>\<open>create_secret_link\<close> or
  \<^verbatim>\<open>update_secret_link\<close> is not earlier than the clock readings taken during
  validation (it may equal them) and is the expiration of the resulting link; a supplied
  instant strictly earlier than the first reading is rejected with "Expiration date must
  be set to the future" once the record resolves, the caller may manage it and (for an
  update) the link exists.
\<close>

theorem accepted_expires_at_not_before_now:
  assumes "load_secret_link env raw = Inr data"
    and "ld_expires_at data = Some (Some t)"
  shows "(\<forall>link s'. create_secret_link env now ident rid raw s = (Inr link, s')
            \<longrightarrow> now \<le> t \<and> expires_at link = Some t)
       \<and> (\<forall>link s'. update_secret_link env now now' ident rid lid raw s = (Inr link, s')
            \<longrightarrow> now \<le> t \<and> now' \<le> t \<and> expires_at link = Some t)
       \<and> (t < now \<and> (\<exists>rec par. get_parent_and_record_or_draft s rid = Inr (rec, par)
                         \<and> permits env ident ''manage'' rec par)
            \<longrightarrow> create_secret_link env now ident rid raw s
                  = (Inl (ValidationError msg_future (Some ''expires_at'')), s))
       \<and> (t < now \<and> (\<exists>rec par. get_parent_and_record_or_draft s rid = Inr (rec, par)
                         \<and> permits env ident ''manage'' rec par
                         \<and> lid \<in> set (map link_id (links par)))
            \<longrightarrow> update_secret_link env now now' ident rid lid raw s
                  = (Inl (ValidationError msg_future (Some ''expires_at'')), s))"
proof -
  have c: "now \<le> t \<and> expires_at link = Some t"
    if "create_secret_link env now ident rid raw s = (Inr link, s')" for link s'
  proof -
    from that assms obtain w where
      v: "validate_secret_link_expires_at now now (Some t) True None = Inr w"
      and l: "expires_at link = w"
      by (auto simp: create_secret_link_def links_create_def Let_def
               split: sum.splits if_splits option.splits)
    from validate_accepted_not_past [OF v] validate_accepts [OF v] l show ?thesis by simp
  qed
  have u: "now \<le> t \<and> now' \<le> t \<and> expires_at link = Some t"
    if "update_secret_link env now now' ident rid lid raw s = (Inr link, s')" for link s'
  proof -
    from that assms obtain w old where
      v: "validate_secret_link_expires_at now now' (Some t) True (Some old) = Inr w"
      and l: "expires_at link = (case w of None \<Rightarrow> expires_at old | Some x \<Rightarrow> Some x)"
      by (auto simp: update_secret_link_def Let_def
               split: sum.splits if_splits option.splits)
    from validate_accepted_not_past [OF v] validate_update_accepted_not_past [OF v]
      validate_accepts [OF v] l
    show ?thesis by simp
  qed
  have rc: "create_secret_link env now ident rid raw s
              = (Inl (ValidationError msg_future (Some ''expires_at'')), s)"
    if "t < now" "get_parent_and_record_or_draft s rid = Inr (rec, par)"
      "permits env ident ''manage'' rec par" for rec par
    using that assms by (simp add: create_secret_link_def validate_rejects_past)
  have ru: "update_secret_link env now now' ident rid lid raw s
              = (Inl (ValidationError msg_future (Some ''expires_at'')), s)"
    if "t < now" "get_parent_and_record_or_draft s rid = Inr (rec, par)"
      "permits env ident ''manage'' rec par" "lid \<in> set (map link_id (links par))" for rec par
  proof -
    from that(4) obtain i where "list_index (map link_id (links par)) lid = Some i"
      using list_index_found by fastforce
    with that assms show ?thesis
      by (simp add: update_secret_link_def validate_rejects_past Let_def)
  qed
  from c u rc ru show ?thesis by blast
qed

theorem accepted_expires_at_not_before_now_witness:
  "fst (create_secret_link ex_env 100 ex_identity ''r1''
          ((data_expires (Some (Some 200)))\<lparr>ld_permission := Some ''view''\<rparr>) ex_state)
     = Inr \<lparr>link_id = ''NL1L2'', permission_level = ''view'', origin = None, description = [],
            expires_at = Some 200, extra_data = []\<rparr>
   \<and> (100::int) \<le> 200
   \<and> create_secret_link ex_env 100 ex_identity ''r1''
          ((data_expires (Some (Some 99)))\<lparr>ld_permission := Some ''view''\<rparr>) ex_state
     = (Inl (ValidationError msg_future (Some ''expires_at'')), ex_state)"
proof -
  let ?d = "\<lambda>t. (data_expires (Some (Some t)))\<lparr>ld_permission := Some ''view''\<rparr>"
  let ?run = "create_secret_link ex_env 100 ex_identity ''r1'' (?d 200) ex_state"
  have res: "fst ?run = Inr \<lparr>link_id = ''NL1L2'', permission_level = ''view'', origin = None,
                description = [], expires_at = Some 200, extra_data = []\<rparr>"
    by (simp add: create_secret_link_def validate_secret_link_expires_at_def links_create_def
        get_parent_and_record_or_draft_def Let_def ex_defs)
  have d: "ld_expires_at (?d t) = Some (Some t)" for t
    by (simp add: data_expires_def)
  have p: "\<exists>rec par. get_parent_and_record_or_draft ex_state ''r1'' = Inr (rec, par)
             \<and> permits ex_env ex_identity ''manage'' rec par"
    using ex_resolve ex_permits by blast
  from accepted_expires_at_not_before_now [OF ex_load d, where t = 200 and now = 100
      and now' = 100 and ident = ex_identity and rid = "''r1''" and s = ex_state and lid = "''L1''"]
    accepted_expires_at_not_before_now [OF ex_load d, where t = 99 and now = 100
      and now' = 100 and ident = ex_identity and rid = "''r1''" and s = ex_state and lid = "''L1''"]
    res p
  show ?thesis by simp
qed

text \<open>
  The claim as written asks for an instant strictly later than now: an expiration equal
  to the clock reading is accepted.
\<close>

theorem create_secret_link_at_now_counterexample:
  "\<not> ((100::int) < 100)
   \<and> fst (create_secret_link ex_env 100 ex_identity ''r1''
          ((data_expires (Some (Some 100)))\<lparr>ld_permission := Some ''view''\<rparr>) ex_state)
     = Inr \<lparr>link_id = ''NL1L2'', permission_level = ''view'', origin = None, description = [],
            expires_at = Some 100, extra_data = []\<rparr>"
  by (simp add: create_secret_link_def validate_secret_link_expires_at_def links_create_def
        get_parent_and_record_or_draft_def Let_def ex_defs)

text \<open>
  Claim C9. When the record resolves, the caller may manage it and the payload loads,
  a payload without \<^verbatim>\<open>permission\<close> and a payload whose permission level is not
  allowed both end in a \<^verbatim>\<open>ValidationError\<close> with the state untouched: no link is
  added and nothing is registered with the unit of work. When the expiration in the
  payload passes its own validation, the error is "An access permission level is required"
  in the first case and "Invalid access permission level." in the second.
\<close>

theorem create_secret_link_permission_validation:
  assumes "get_parent_and_record_or_draft s rid = Inr (rec, par)"
    and "permits env ident ''manage'' rec par"
    and "load_secret_link env raw = Inr data"
    and "ld_permission data = None
         \<or> (\<exists>level. ld_permission data = Some level \<and> level \<notin> set (allowed_levels env))"
  shows "(\<exists>m f. create_secret_link env now ident rid raw s = (Inl (ValidationError m f), s))
       \<and> ((\<forall>t. ld_expires_at data = Some (Some t) \<longrightarrow> now \<le> t)
            \<longrightarrow> (ld_permission data = None
                   \<longrightarrow> create_secret_link env now ident rid raw s
                         = (Inl (ValidationError msg_required (Some ''permission'')), s))
              \<and> (ld_permission data \<noteq> None
                   \<longrightarrow> create_secret_link env now ident rid raw s
                         = (Inl (ValidationError msg_invalid_level (Some ''permission'')), s)))"
  using assms
  by (auto simp: create_secret_link_def validate_secret_link_expires_at_def links_create_def
           split: option.splits)

theorem create_secret_link_permission_validation_witness:
  "create_secret_link ex_env 100 ex_identity ''r1'' (data_expires None) ex_state
     = (Inl (ValidationError msg_required (Some ''permission'')), ex_state)
   \<and> create_secret_link ex_env 100 ex_identity ''r1''
        ((data_expires None)\<lparr>ld_permission := Some ''own''\<rparr>) ex_state
     = (Inl (ValidationError msg_invalid_level (Some ''permission'')), ex_state)
   \<and> links (parents ex_state ''p1'') = [ex_link, ex_link_open] \<and> uow ex_state = []"
proof -
  have a: "ld_permission (data_expires None) = None" "ld_expires_at (data_expires None) = None"
    by (simp_all add: data_expires_def)
  have b: "ld_permission ((data_expires None)\<lparr>ld_permission := Some ''own''\<rparr>) = Some ''own''"
    "ld_expires_at ((data_expires None)\<lparr>ld_permission := Some ''own''\<rparr>) = None"
    by (simp_all add: data_expires_def)
  have lv: "''own'' \<notin> set (allowed_levels ex_env)"
    by (simp add: ex_env_def)
  have st: "links (parents ex_state ''p1'') = [ex_link, ex_link_open] \<and> uow ex_state = []"
    by (simp add: ex_state_def ex_parent_def)
  from create_secret_link_permission_validation [OF ex_resolve ex_permits
      ex_load [of "data_expires None"], where ident = ex_identity and now = 100]
    create_secret_link_permission_validation [OF ex_resolve ex_permits
      ex_load [of "(data_expires None)\<lparr>ld_permission := Some ''own''\<rparr>"],
      where ident = ex_identity and now = 100]
    a b lv st
  show ?thesis by simp
qed

lemma py_index_inside: "0 \<le> i \<Longrightarrow> i < int (length xs) \<Longrightarrow> py_index xs i = Some (nat i)"
  by (simp add: py_index_def)

lemma py_index_negative:
  "- int (length xs) \<le> i \<Longrightarrow> i < 0 \<Longrightarrow> py_index xs i = Some (nat (int (length xs) + i))"
  by (simp add: py_index_def)

lemma py_index_beyond: "int (length xs) \<le> i \<Longrightarrow> py_index xs i = None"
  by (simp add: py_index_def)

text \<open>
  Claim C7. For a record that resolves and a caller who may manage it, with \<open>n\<close> grants
  on the parent: outside \<open>[0, n)\<close> both \<^verbatim>\<open>read_grant\<close> and \<^verbatim>\<open>delete_grant\<close> raise
  \<^verbatim>\<open>LookupError(str(grant_id))\<close> and leave the state as it was; inside, neither raises,
  \<^verbatim>\<open>read_grant\<close> returns the grant at that position, and \<^verbatim>\<open>delete_grant\<close> returns
  \<^verbatim>\<open>True\<close> and leaves the sequence without that one element.
\<close>

theorem grant_index_bounds:
  assumes "get_parent_and_record_or_draft s rid = Inr (rec, par)"
    and "permits env ident ''manage'' rec par"
  shows "(\<not> (0 \<le> i \<and> i < int (length (grants par)))
            \<longrightarrow> read_grant env ident rid i s = (Inl (LookupError (str_int i)), s)
              \<and> delete_grant env ident rid i s = (Inl (LookupError (str_int i)), s))
       \<and> (0 \<le> i \<and> i < int (length (grants par))
            \<longrightarrow> read_grant env ident rid i s = (Inr (grants par ! nat i), s)
              \<and> fst (delete_grant env ident rid i s) = Inr True
              \<and> grants (parents (snd (delete_grant env ident rid i s)) (parent_of rec))
                  = take (nat i) (grants par) @ drop (Suc (nat i)) (grants par))"
  using assms
  by (auto simp: read_grant_def delete_grant_def py_get_def py_pop_def py_index_inside
        commit_and_index_fields)

theorem grant_index_bounds_witness:
  "read_grant ex_env ex_identity ''r1'' 3 ex_state = (Inl (LookupError ''3''), ex_state)
   \<and> delete_grant ex_env ex_identity ''r1'' (- 1) ex_state = (Inl (LookupError ''-1''), ex_state)
   \<and> read_grant ex_env ex_identity ''r1'' 1 ex_state
       = (Inr \<lparr>subject_type = ''user'', subject_id = ''2'', permission = ''edit'',
               grant_origin = None\<rparr>, ex_state)
   \<and> map subject_id (grants (parents (snd (delete_grant ex_env ex_identity ''r1'' 1 ex_state)) ''p1''))
       = [''1'', ''admin'']"
proof -
  have n: "length (grants ex_parent) = 3" "parent_of ex_record = ''p1''"
    by (simp_all add: ex_parent_def ex_grants_def ex_record_def)
  have g: "grants ex_parent = ex_grants"
    by (simp add: ex_parent_def)
  have s3: "str_int 3 = ''3''" "str_int (- 1) = ''-1''"
    by code_simp+
  note r = grant_index_bounds [OF ex_resolve ex_permits, where ident = ex_identity]
  from r [of 3] r [of "- 1"] r [of 1] show ?thesis
    by (simp add: n g s3 ex_grants_def)
qed

text \<open>
  Claim C8. After a successful \<^verbatim>\<open>delete_grant\<close> at a valid index \<open>i\<close>, by a caller who
  may still manage the record afterwards, \<^verbatim>\<open>read_grant\<close> at \<open>i\<close> returns the grant that
  stood at \<open>i + 1\<close> before the deletion, and raises \<^verbatim>\<open>LookupError\<close> if \<open>i\<close> was the last
  index.
\<close>

theorem delete_then_read_grant:
  assumes "get_parent_and_record_or_draft s rid = Inr (rec, par)"
    and "permits env ident ''manage'' rec par"
    and "0 \<le> i" and "i < int (length (grants par))"
    and "delete_grant env ident rid i s = (r, s')"
    and "permits env ident ''manage'' rec (parents s' (parent_of rec))"
  shows "r = Inr True
       \<and> (i + 1 < int (length (grants par))
            \<longrightarrow> read_grant env ident rid i s' = (Inr (grants par ! nat (i + 1)), s'))
       \<and> (i + 1 = int (length (grants par))
            \<longrightarrow> read_grant env ident rid i s' = (Inl (LookupError (str_int i)), s'))"
proof -
  let ?gs = "take (nat i) (grants par) @ drop (Suc (nat i)) (grants par)"
  from assms(1-5) have r: "r = Inr True"
    and s': "s' = commit_and_index rec (par\<lparr>grants := ?gs\<rparr>) s"
    by (auto simp: delete_grant_def py_pop_def py_index_inside)
  have res: "get_parent_and_record_or_draft s' rid = Inr (rec, parents s' (parent_of rec))"
    using assms(1) by (rule get_parent_state_indep [rotated 2]) (simp_all add: s' commit_and_index_fields)
  have gs: "grants (parents s' (parent_of rec)) = ?gs"
    by (simp add: s' commit_and_index_fields)
  have len: "int (length ?gs) = int (length (grants par)) - 1"
    using assms(3,4) by simp
  have nth: "?gs ! nat i = grants par ! nat (i + 1)" if "i + 1 < int (length (grants par))"
  proof -
    have e: "nat (i + 1) = Suc (nat i)"
      using assms(3) by simp
    have "?gs ! nat i = drop (Suc (nat i)) (grants par) ! 0"
      using assms(3,4) by (simp add: nth_append)
    also have "\<dots> = grants par ! Suc (nat i)"
      using that assms(3) by simp
    finally show ?thesis
      by (simp only: e)
  qed
  have inside: "read_grant env ident rid i s' = (Inr (grants par ! nat (i + 1)), s')"
    if "i + 1 < int (length (grants par))"
    using that assms(3,6) res gs len nth [OF that]
    by (simp add: read_grant_def py_get_def py_index_inside)
  have last: "read_grant env ident rid i s' = (Inl (LookupError (str_int i)), s')"
    if "i + 1 = int (length (grants par))"
    using that assms(6) res gs len by (simp add: read_grant_def)
  from r inside last show ?thesis by blast
qed

theorem delete_then_read_grant_witness:
  "fst (read_grant ex_env ex_identity ''r1'' 1
          (snd (delete_grant ex_env ex_identity ''r1'' 1 ex_state)))
     = Inr \<lparr>subject_type = ''role'', subject_id = ''admin'', permission = ''manage'',
            grant_origin = None\<rparr>
   \<and> fst (read_grant ex_env ex_identity ''r1'' 2
          (snd (delete_grant ex_env ex_identity ''r1'' 2 ex_state)))
     = Inl (LookupError ''2'')"
proof -
  have n: "int (length (grants ex_parent)) = 3"
    by (simp add: ex_parent_def ex_grants_def)
  have g: "grants ex_parent ! 2
             = \<lparr>subject_type = ''role'', subject_id = ''admin'', permission = ''manage'',
                grant_origin = None\<rparr>"
    by (simp add: ex_parent_def ex_grants_def)
  have s2: "str_int 2 = ''2''"
    by code_simp
  have d: "delete_grant ex_env ex_identity ''r1'' i ex_state
             = (fst (delete_grant ex_env ex_identity ''r1'' i ex_state),
                snd (delete_grant ex_env ex_identity ''r1'' i ex_state))" for i
    by simp
  have a: "read_grant ex_env ex_identity ''r1'' 1
             (snd (delete_grant ex_env ex_identity ''r1'' 1 ex_state))
           = (Inr (grants ex_parent ! nat (1 + 1)),
              snd (delete_grant ex_env ex_identity ''r1'' 1 ex_state))"
    using delete_then_read_grant [OF ex_resolve ex_permits _ _ d [of 1] ex_permits] n
    by simp
  have b: "read_grant ex_env ex_identity ''r1'' 2
             (snd (delete_grant ex_env ex_identity ''r1'' 2 ex_state))
           = (Inl (LookupError (str_int 2)),
              snd (delete_grant ex_env ex_identity ''r1'' 2 ex_state))"
    using delete_then_read_grant [OF ex_resolve ex_permits _ _ d [of 2] ex_permits] n
    by simp
  from a b show ?thesis
    by (simp add: g s2)
qed

text \<open>
  Claim C10. \<^verbatim>\<open>update_grant\<close> indexes the grant sequence without the range check of
  \<^verbatim>\<open>read_grant\<close> and \<^verbatim>\<open>delete_grant\<close>. For a record that resolves and a caller who
  may manage it, with \<open>n\<close> grants: at a negative index \<open>-n \<le> grant_id < 0\<close> the old grant is
  the one at position \<open>n + grant_id\<close>, and when the payload (merged with that old grant for
  a partial update) loads and the new grant can be built, the method returns the new grant
  and has replaced position \<open>n + grant_id\<close>, while \<^verbatim>\<open>read_grant\<close> raises
  \<^verbatim>\<open>LookupError\<close> for the same index; at \<open>grant_id \<ge> n\<close> the method raises the
  \<^verbatim>\<open>IndexError\<close> of the list access, not \<^verbatim>\<open>LookupError(str(grant_id))\<close>.
\<close>

theorem update_grant_unchecked_index:
  assumes "get_parent_and_record_or_draft s rid = Inr (rec, par)"
    and "permits env ident ''manage'' rec par"
  shows "(- int (length (grants par)) \<le> grant_id \<and> grant_id < 0
            \<longrightarrow> (\<forall>data new_grant.
                   load_grant env
                     (if partial
                      then merge_partial raw
                             (grants par ! nat (int (length (grants par)) + grant_id))
                      else raw) = Inr data
                   \<and> grant_cls_create env data = Some new_grant
                   \<longrightarrow> fst (update_grant env ident rid grant_id raw partial s) = Inr new_grant
                     \<and> grants (parents (snd (update_grant env ident rid grant_id raw partial s))
                                (parent_of rec))
                         = (grants par)[nat (int (length (grants par)) + grant_id) := new_grant])
              \<and> read_grant env ident rid grant_id s
                  = (Inl (LookupError (str_int grant_id)), s))
       \<and> (int (length (grants par)) \<le> grant_id
            \<longrightarrow> update_grant env ident rid grant_id raw partial s = (Inl IndexError, s)
              \<and> read_grant env ident rid grant_id s
                  = (Inl (LookupError (str_int grant_id)), s))"
proof -
  have neg: "fst (update_grant env ident rid grant_id raw partial s) = Inr new_grant
      \<and> grants (parents (snd (update_grant env ident rid grant_id raw partial s)) (parent_of rec))
          = (grants par)[nat (int (length (grants par)) + grant_id) := new_grant]"
    if "- int (length (grants par)) \<le> grant_id" "grant_id < 0"
      "load_grant env
         (if partial
          then merge_partial raw (grants par ! nat (int (length (grants par)) + grant_id))
          else raw) = Inr data"
      "grant_cls_create env data = Some new_grant" for data new_grant
    using assms that py_index_negative [OF that(1,2)]
    by (simp add: update_grant_def py_get_def py_set_def commit_and_index_fields)
  have rd: "read_grant env ident rid grant_id s = (Inl (LookupError (str_int grant_id)), s)"
    if "grant_id < 0 \<or> int (length (grants par)) \<le> grant_id"
    using assms that by (auto simp: read_grant_def)
  have beyond: "update_grant env ident rid grant_id raw partial s = (Inl IndexError, s)"
    if "int (length (grants par)) \<le> grant_id"
    using assms py_index_beyond [OF that] by (simp add: update_grant_def py_get_def)
  from neg rd beyond show ?thesis by blast
qed

theorem update_grant_unchecked_index_witness:
  "fst (update_grant ex_env ex_identity ''r1'' (- 1) ex_patch True ex_state)
     = Inr \<lparr>subject_type = ''role'', subject_id = ''admin'', permission = ''view'',
            grant_origin = None\<rparr>
   \<and> map permission
        (grants (parents (snd (update_grant ex_env ex_identity ''r1'' (- 1) ex_patch True ex_state))
           ''p1''))
     = [''view'', ''edit'', ''view'']
   \<and> read_grant ex_env ex_identity ''r1'' (- 1) ex_state = (Inl (LookupError ''-1''), ex_state)
   \<and> update_grant ex_env ex_identity ''r1'' 3 ex_patch True ex_state = (Inl IndexError, ex_state)
   \<and> read_grant ex_env ex_identity ''r1'' 3 ex_state = (Inl (LookupError ''3''), ex_state)"
proof -
  let ?old = "\<lparr>subject_type = ''role'', subject_id = ''admin'', permission = ''manage'',
               grant_origin = None\<rparr>"
  let ?new = "\<lparr>subject_type = ''role'', subject_id = ''admin'', permission = ''view'',
               grant_origin = None\<rparr>"
  let ?data = "\<lparr>gd_permission = Some ''view'', gd_subject = Some (Some ''role'', Some ''admin''),
                gd_origin = Some None\<rparr>"
  have n: "int (length (grants ex_parent)) = 3" "parent_of ex_record = ''p1''"
    by (simp_all add: ex_parent_def ex_grants_def ex_record_def)
  have old: "grants ex_parent ! 2 = ?old"
    by (simp add: ex_parent_def ex_grants_def)
  have upd: "map permission ((grants ex_parent)[2 := ?new]) = [''view'', ''edit'', ''view'']"
    by (simp add: ex_parent_def ex_grants_def)
  have s3: "str_int 3 = ''3''" "str_int (- 1) = ''-1''"
    by code_simp+
  have ld: "load_grant ex_env d = Inr d" for d
    by (simp add: ex_env_def)
  have m: "merge_partial ex_patch ?old = ?data"
    by (simp add: merge_partial_def ex_patch_def)
  have c: "grant_cls_create ex_env ?data = Some ?new"
    by (simp add: grant_cls_create_def ex_env_def)
  note r = update_grant_unchecked_index [OF ex_resolve ex_permits, where ident = ex_identity
      and raw = ex_patch and partial = True]
  from r [of "- 1"] r [of 3] show ?thesis
    by (simp add: n old upd s3 ld m c)
qed

lemma ex_pid_resolve: "pid_resolve ex_state ''r1'' = Inr ex_record"
  by (simp add: pid_resolve_def ex_state_def)

text \<open>
  Claim C4. For a record that resolves, an identity that holds both \<^verbatim>\<open>read\<close> and
  \<^verbatim>\<open>read_files\<close> gets \<^verbatim>\<open>PermissionDeniedError()\<close> from
  \<^verbatim>\<open>create_user_access_request\<close> and the state, with its stored requests, is as
  before; whenever the outcome is neither that error nor the \<^verbatim>\<open>read\<close> denial, or the
  state has changed, the identity holds \<^verbatim>\<open>read\<close> and lacks \<^verbatim>\<open>read_files\<close>.
\<close>

theorem create_user_access_request_gate:
  assumes "pid_resolve s rid = Inr rec"
  shows "(permits env ident ''read'' rec (parents s (parent_of rec))
          \<and> permits env ident ''read_files'' rec (parents s (parent_of rec))
            \<longrightarrow> create_user_access_request env ident rid msg s
                  = (Inl (PermissionDeniedError None), s))
       \<and> (fst (create_user_access_request env ident rid msg s)
              \<notin> {Inl (PermissionDeniedError None), Inl (PermissionDeniedError (Some ''read''))}
          \<or> snd (create_user_access_request env ident rid msg s) \<noteq> s
            \<longrightarrow> permits env ident ''read'' rec (parents s (parent_of rec))
              \<and> \<not> permits env ident ''read_files'' rec (parents s (parent_of rec)))"
  using assms
  by (auto simp: create_user_access_request_def Let_def)

lemmas run_defs = create_user_access_request_def create_guest_access_request_def
  open_duplicates_def pid_resolve_def get_by_token_def is_expired_def token_delete_def Let_def

theorem create_user_access_request_gate_witness:
  "create_user_access_request (ex_env\<lparr>permits := (\<lambda>i a r p. True)\<rparr>) ex_identity ''r1''
       (Some ''hello'') ex_state
     = (Inl (PermissionDeniedError None), ex_state)
   \<and> requests (snd (create_user_access_request ex_env ex_identity ''r1'' (Some ''hello'') ex_state))
       \<noteq> requests ex_state
   \<and> permits ex_env ex_identity ''read'' ex_record ex_parent
   \<and> \<not> permits ex_env ex_identity ''read_files'' ex_record ex_parent"
proof -
  have p: "parents ex_state (parent_of ex_record) = ex_parent"
    by (simp add: ex_state_def)
  have ch: "requests (snd (create_user_access_request ex_env ex_identity ''r1'' (Some ''hello'')
              ex_state)) \<noteq> requests ex_state"
    by (simp add: run_defs ex_defs)
  then have ch': "snd (create_user_access_request ex_env ex_identity ''r1'' (Some ''hello'')
              ex_state) \<noteq> ex_state"
    by auto
  from create_user_access_request_gate [OF ex_pid_resolve,
      where env = "ex_env\<lparr>permits := (\<lambda>i a r p. True)\<rparr>" and ident = ex_identity
        and msg = "Some ''hello''"]
    create_user_access_request_gate [OF ex_pid_resolve,
      where env = ex_env and ident = ex_identity and msg = "Some ''hello''"]
    ch ch' p
  show ?thesis by simp
qed

lemma open_duplicates_user:
  "open_duplicates UserAccessRequest (RefUser (identity_id ident)) (RefRecord rid) rs
     = filter (\<lambda>q. is_open q \<and> user_request_of ident rid q) rs"
  by (induction rs) (auto simp: open_duplicates_def user_request_of_def split: option.splits)

text \<open>
  Claim C5. The identity holds \<^verbatim>\<open>read\<close> and lacks \<^verbatim>\<open>read_files\<close> on a record that
  resolves. If the store holds an open user access request of this user for this record,
  \<^verbatim>\<open>create_user_access_request\<close> raises \<^verbatim>\<open>DuplicateAccessRequestError\<close> with the
  identifiers of exactly the open colliding requests, that one among them, and the state is
  as before. If no colliding request is open, the requests service is asked to create the
  request and the method returns it: as created when it carries errors, otherwise as
  returned by the \<^verbatim>\<open>submit\<close> action.
\<close>

theorem create_user_access_request_duplicates:
  assumes "pid_resolve s rid = Inr rec"
    and "permits env ident ''read'' rec (parents s (parent_of rec))"
    and "\<not> permits env ident ''read_files'' rec (parents s (parent_of rec))"
  shows "(\<forall>q. q \<in> set (requests s) \<and> is_open q \<and> user_request_of ident rid q
            \<longrightarrow> (\<exists>ids. create_user_access_request env ident rid msg s
                          = (Inl (DuplicateAccessRequestError ids), s)
                       \<and> request_id q \<in> set ids
                       \<and> set ids = request_id `
                           {q' \<in> set (requests s). is_open q' \<and> user_request_of ident rid q'}))
       \<and> ((\<forall>q \<in> set (requests s). user_request_of ident rid q \<longrightarrow> \<not> is_open q)
            \<longrightarrow> (let created =
                        requests_create env ident
                          \<lparr>rp_permission = ''view'', rp_message = msg, rp_email = None,
                           rp_full_name = None, rp_token = None\<rparr>
                          UserAccessRequest (owner (parents s (parent_of rec))) None rec s;
                      submitted =
                        requests_execute_action env ident (request_id (fst created)) ''submit''
                          (case msg of None \<Rightarrow> [] | Some m \<Rightarrow> m)
                          (s\<lparr>requests := snd created\<rparr>)
                  in create_user_access_request env ident rid msg s
                       = (if request_errors (fst created) \<noteq> []
                          then (Inr (fst created), s\<lparr>requests := snd created\<rparr>)
                          else (Inr (fst submitted), s\<lparr>requests := snd submitted\<rparr>))))"
proof -
  let ?dups = "filter (\<lambda>q. is_open q \<and> user_request_of ident rid q) (requests s)"
  have dup: "\<exists>ids. create_user_access_request env ident rid msg s
                     = (Inl (DuplicateAccessRequestError ids), s)
                  \<and> request_id q \<in> set ids
                  \<and> set ids = request_id `
                      {q' \<in> set (requests s). is_open q' \<and> user_request_of ident rid q'}"
    if "q \<in> set (requests s)" "is_open q" "user_request_of ident rid q" for q
  proof -
    from that have mem: "q \<in> set ?dups" by simp
    then have ne: "?dups \<noteq> []"
      by (metis empty_iff list.set(1))
    have run: "create_user_access_request env ident rid msg s
                 = (Inl (DuplicateAccessRequestError (map request_id ?dups)), s)"
      using assms ne by (simp add: create_user_access_request_def open_duplicates_user)
    have "set (map request_id ?dups) = request_id `
            {q' \<in> set (requests s). is_open q' \<and> user_request_of ident rid q'}"
      by auto
    moreover have "request_id q \<in> set (map request_id ?dups)"
      using mem by (simp only: set_map) (rule imageI)
    ultimately show ?thesis using run by blast
  qed
  have fresh: "?dups = []" if "\<forall>q \<in> set (requests s). user_request_of ident rid q \<longrightarrow> \<not> is_open q"
    using that by (auto simp: filter_empty_conv)
  have ok: "(let created =
                        requests_create env ident
                          \<lparr>rp_permission = ''view'', rp_message = msg, rp_email = None,
                           rp_full_name = None, rp_token = None\<rparr>
                          UserAccessRequest (owner (parents s (parent_of rec))) None rec s;
                      submitted =
                        requests_execute_action env ident (request_id (fst created)) ''submit''
                          (case msg of None \<Rightarrow> [] | Some m \<Rightarrow> m)
                          (s\<lparr>requests := snd created\<rparr>)
                  in create_user_access_request env ident rid msg s
                       = (if request_errors (fst created) \<noteq> []
                          then (Inr (fst created), s\<lparr>requests := snd created\<rparr>)
                          else (Inr (fst submitted), s\<lparr>requests := snd submitted\<rparr>)))"
    if "\<forall>q \<in> set (requests s). user_request_of ident rid q \<longrightarrow> \<not> is_open q"
    using assms fresh [OF that]
    by (simp add: create_user_access_request_def open_duplicates_user Let_def
          split: prod.splits)
  from dup ok show ?thesis by blast
qed

lemma ex_first_request:
  "create_user_access_request ex_env ex_identity ''r1'' (Some ''hello'') ex_state
     = (Inr (ex_request ''q'' UserAccessRequest (RefUser ''7'')),
        ex_state\<lparr>requests := [ex_request ''q'' UserAccessRequest (RefUser ''7'')]\<rparr>)"
  by (simp add: run_defs ex_defs ex_request_def)

theorem create_user_access_request_duplicates_witness:
  "create_user_access_request ex_env ex_identity ''r1'' (Some ''hello'') ex_state
     = (Inr (ex_request ''q'' UserAccessRequest (RefUser ''7'')),
        ex_state\<lparr>requests := [ex_request ''q'' UserAccessRequest (RefUser ''7'')]\<rparr>)
   \<and> (\<exists>ids. create_user_access_request ex_env ex_identity ''r1'' (Some ''again'')
               (ex_state\<lparr>requests := [ex_request ''q'' UserAccessRequest (RefUser ''7'')]\<rparr>)
             = (Inl (DuplicateAccessRequestError ids),
                ex_state\<lparr>requests := [ex_request ''q'' UserAccessRequest (RefUser ''7'')]\<rparr>)
           \<and> set ids = {''q''})
   \<and> fst (create_user_access_request ex_env ex_identity ''r1'' (Some ''again'')
            (close_all (ex_state\<lparr>requests := [ex_request ''q'' UserAccessRequest (RefUser ''7'')]\<rparr>)))
       = Inr (ex_request ''qq'' UserAccessRequest (RefUser ''7''))"
proof -
  let ?q = "ex_request ''q'' UserAccessRequest (RefUser ''7'')"
  let ?s1 = "ex_state\<lparr>requests := [?q]\<rparr>"
  have res: "pid_resolve ?s1 ''r1'' = Inr ex_record" "pid_resolve (close_all ?s1) ''r1'' = Inr ex_record"
    by (simp_all add: pid_resolve_def close_all_def ex_state_def)
  have rd: "permits ex_env ex_identity ''read'' r p" for r p
    by (simp add: ex_env_def)
  have rf: "\<not> permits ex_env ex_identity ''read_files'' r p" for r p
    by (simp add: ex_env_def)
  have q: "is_open ?q" "user_request_of ex_identity ''r1'' ?q" "request_id ?q = ''q''"
    by (simp_all add: ex_request_def user_request_of_def ex_identity_def)
  have rs: "requests ?s1 = [?q]"
    by simp
  have closed: "\<forall>x \<in> set (requests (close_all ?s1)). user_request_of ex_identity ''r1'' x
                  \<longrightarrow> \<not> is_open x"
    by (simp add: close_all_def)
  have third: "fst (create_user_access_request ex_env ex_identity ''r1'' (Some ''again'')
                  (close_all ?s1))
               = Inr (ex_request ''qq'' UserAccessRequest (RefUser ''7''))"
    using create_user_access_request_duplicates [OF res(2) rd rf, where msg = "Some ''again''"]
      closed
    by (simp add: Let_def close_all_def ex_env_def ex_request_def ex_identity_def ex_record_def)
  have mem: "?q \<in> set (requests ?s1) \<and> is_open ?q \<and> user_request_of ex_identity ''r1'' ?q"
    using q by simp
  have col: "request_id ` {q' \<in> set (requests ?s1). is_open q' \<and> user_request_of ex_identity ''r1'' q'}
               = {''q''}"
    using q by auto
  from create_user_access_request_duplicates [OF res(1) rd rf, where msg = "Some ''again''"]
  have "\<forall>x. x \<in> set (requests ?s1) \<and> is_open x \<and> user_request_of ex_identity ''r1'' x
            \<longrightarrow> (\<exists>ids. create_user_access_request ex_env ex_identity ''r1'' (Some ''again'') ?s1
                          = (Inl (DuplicateAccessRequestError ids), ?s1)
                       \<and> request_id x \<in> set ids
                       \<and> set ids = request_id `
                           {q' \<in> set (requests ?s1). is_open q' \<and> user_request_of ex_identity ''r1'' q'})"
    by (rule conjunct1)
  with mem have "\<exists>ids. create_user_access_request ex_env ex_identity ''r1'' (Some ''again'') ?s1
                          = (Inl (DuplicateAccessRequestError ids), ?s1)
                       \<and> request_id ?q \<in> set ids
                       \<and> set ids = request_id `
                           {q' \<in> set (requests ?s1). is_open q' \<and> user_request_of ex_identity ''r1'' q'}"
    by blast
  then have second: "\<exists>ids. create_user_access_request ex_env ex_identity ''r1'' (Some ''again'') ?s1
                        = (Inl (DuplicateAccessRequestError ids), ?s1) \<and> set ids = {''q''}"
    by (simp only: col) blast
  from ex_first_request second third show ?thesis by blast
qed

lemma open_duplicates_guest:
  "open_duplicates GuestAccessRequest (RefEmail mail) (RefRecord rid) rs
     = filter (\<lambda>q. is_open q \<and> guest_request_of mail rid q) rs"
  by (induction rs) (auto simp: open_duplicates_def guest_request_of_def split: option.splits)

lemma guest_request_no_token:
  "authenticated_user \<notin> provides ident \<Longrightarrow> tokens s tok = None \<Longrightarrow>
   create_guest_access_request env now ident tok s = (Inr None, s)"
  by (simp add: create_guest_access_request_def get_by_token_def)

lemma guest_request_success:
  assumes "create_guest_access_request env now ident tok s = (Inr (Some q), s')"
  shows "tokens s' = (tokens s)(tok := None) \<and> authenticated_user \<notin> provides ident"
  using assms
  by (auto simp: create_guest_access_request_def token_delete_def Let_def
           split: if_splits option.splits sum.splits prod.splits)

text \<open>
  Claim C6. For an identity that is not authenticated: when the token is unknown or
  expired, \<^verbatim>\<open>create_guest_access_request\<close> returns \<^verbatim>\<open>None\<close> and the state is as
  before. When the token is valid, its record resolves and no open guest request of that
  e-mail address for that record exists, the token is removed first and the requests
  service is then asked to create the guest request on the state without the token, in
  which no clock reading finds it any more; the method returns the request as created when
  it carries errors and as returned by the \<^verbatim>\<open>submit\<close> action otherwise, and the state
  it leaves is the one without the token, with the request store as the requests service
  returned it. After any redemption that returned a request, redeeming the same token again
  returns \<^verbatim>\<open>None\<close> and changes nothing.
\<close>

theorem create_guest_access_request_single_use:
  assumes "authenticated_user \<notin> provides ident"
  shows "(tokens s tok = None \<or> (\<exists>t. tokens s tok = Some t \<and> is_expired t now)
            \<longrightarrow> create_guest_access_request env now ident tok s = (Inr None, s))
       \<and> (\<forall>t rec. tokens s tok = Some t \<and> \<not> is_expired t now
                  \<and> pid_resolve s (record_pid t) = Inr rec
                  \<and> (\<forall>q \<in> set (requests s).
                        is_open q \<longrightarrow> \<not> guest_request_of (email t) (record_pid t) q)
            \<longrightarrow> (let s1 = s\<lparr>tokens := (tokens s)(tok := None)\<rparr>;
                      msg = (case message t of None \<Rightarrow> [] | Some m \<Rightarrow> m);
                      created =
                        requests_create env (system_identity env)
                          \<lparr>rp_permission = ''view'', rp_message = Some msg,
                           rp_email = Some (email t), rp_full_name = Some (full_name t),
                           rp_token = Some tok\<rparr>
                          GuestAccessRequest (owner (parents s (parent_of rec)))
                          (Some (email t)) rec s1;
                      submitted =
                        requests_execute_action env (system_identity env)
                          (request_id (fst created)) ''submit''
                          (full_name t @ '' ('' @ email t @ '') commented'' @ '': '' @ msg)
                          (s1\<lparr>requests := snd created\<rparr>)
                  in (\<forall>now'. get_by_token s1 now' tok = None)
                     \<and> create_guest_access_request env now ident tok s
                         = (if request_errors (fst created) \<noteq> []
                            then (Inr (Some (fst created)), s1\<lparr>requests := snd created\<rparr>)
                            else (Inr (Some (fst submitted)), s1\<lparr>requests := snd submitted\<rparr>))))
       \<and> (\<forall>q s'. create_guest_access_request env now ident tok s = (Inr (Some q), s')
            \<longrightarrow> tokens s' tok = None
              \<and> (\<forall>now'. create_guest_access_request env now' ident tok s' = (Inr None, s')))"
proof -
  have none: "create_guest_access_request env now ident tok s = (Inr None, s)"
    if "tokens s tok = None \<or> (\<exists>t. tokens s tok = Some t \<and> is_expired t now)"
    using assms that by (auto simp: create_guest_access_request_def get_by_token_def)
  have valid: "(let s1 = s\<lparr>tokens := (tokens s)(tok := None)\<rparr>;
                      msg = (case message t of None \<Rightarrow> [] | Some m \<Rightarrow> m);
                      created =
                        requests_create env (system_identity env)
                          \<lparr>rp_permission = ''view'', rp_message = Some msg,
                           rp_email = Some (email t), rp_full_name = Some (full_name t),
                           rp_token = Some tok\<rparr>
                          GuestAccessRequest (owner (parents s (parent_of rec)))
                          (Some (email t)) rec s1;
                      submitted =
                        requests_execute_action env (system_identity env)
                          (request_id (fst created)) ''submit''
                          (full_name t @ '' ('' @ email t @ '') commented'' @ '': '' @ msg)
                          (s1\<lparr>requests := snd created\<rparr>)
                  in (\<forall>now'. get_by_token s1 now' tok = None)
                     \<and> create_guest_access_request env now ident tok s
                         = (if request_errors (fst created) \<noteq> []
                            then (Inr (Some (fst created)), s1\<lparr>requests := snd created\<rparr>)
                            else (Inr (Some (fst submitted)), s1\<lparr>requests := snd submitted\<rparr>)))"
    if "tokens s tok = Some t" "\<not> is_expired t now" "pid_resolve s (record_pid t) = Inr rec"
      "\<forall>q \<in> set (requests s). is_open q \<longrightarrow> \<not> guest_request_of (email t) (record_pid t) q"
    for t rec
  proof -
    have no_dup: "open_duplicates GuestAccessRequest (RefEmail (email t))
                    (RefRecord (record_pid t)) (requests s) = []"
      using that(4) by (auto simp: open_duplicates_guest filter_empty_conv)
    have tk: "get_by_token s now tok = Some t"
      using that(1,2) by (simp add: get_by_token_def)
    show ?thesis
      using assms tk that(3) no_dup
      by (simp add: create_guest_access_request_def token_delete_def get_by_token_def Let_def
            split: prod.splits)
  qed
  have again: "tokens s' tok = None
      \<and> (\<forall>now'. create_guest_access_request env now' ident tok s' = (Inr None, s'))"
    if "create_guest_access_request env now ident tok s = (Inr (Some q), s')" for q s'
  proof -
    from guest_request_success [OF that] have gone: "tokens s' tok = None"
      by simp
    with assms guest_request_no_token show ?thesis by blast
  qed
  from none valid again show ?thesis by blast
qed

theorem create_guest_access_request_single_use_witness:
  "create_guest_access_request ex_env 500 ex_guest ''unknown'' ex_state = (Inr None, ex_state)
   \<and> create_guest_access_request ex_env 2000 ex_guest ''tok1'' ex_state = (Inr None, ex_state)
   \<and> request_errors (fst (requests_create ex_env (system_identity ex_env) ex_guest_payload
        GuestAccessRequest (Some ''1'') (Some ''guest@example.org'') ex_record ex_state))
       = [''token still stored'']
   \<and> create_guest_access_request ex_env 500 ex_guest ''tok1'' ex_state
       = (Inr (Some (ex_request ''q'' GuestAccessRequest (RefEmail ''guest@example.org''))),
          ex_state\<lparr>tokens := Map.empty,
                   requests := [ex_request ''q'' GuestAccessRequest
                                  (RefEmail ''guest@example.org'')]\<rparr>)
   \<and> create_guest_access_request ex_env 501 ex_guest ''tok1''
        (ex_state\<lparr>tokens := Map.empty,
                  requests := [ex_request ''q'' GuestAccessRequest
                                 (RefEmail ''guest@example.org'')]\<rparr>)
       = (Inr None,
          ex_state\<lparr>tokens := Map.empty,
                   requests := [ex_request ''q'' GuestAccessRequest
                                  (RefEmail ''guest@example.org'')]\<rparr>)"
proof -
  let ?q = "ex_request ''q'' GuestAccessRequest (RefEmail ''guest@example.org'')"
  let ?s' = "ex_state\<lparr>tokens := Map.empty, requests := [?q]\<rparr>"
  have g: "authenticated_user \<notin> provides ex_guest"
    by (simp add: ex_guest_def)
  have t: "tokens ex_state ''unknown'' = None" "tokens ex_state ''tok1'' = Some ex_token"
    "is_expired ex_token 2000" "\<not> is_expired ex_token 500"
    by (simp_all add: ex_state_def is_expired_def ex_token_def)
  have seen: "request_errors (fst (requests_create ex_env (system_identity ex_env)
        ex_guest_payload GuestAccessRequest (Some ''1'') (Some ''guest@example.org'')
        ex_record ex_state)) = [''token still stored'']"
    by (simp add: ex_env_def ex_guest_payload_def ex_state_def Let_def)
  have pre: "pid_resolve ex_state (record_pid ex_token) = Inr ex_record"
    "\<forall>q \<in> set (requests ex_state).
       is_open q \<longrightarrow> \<not> guest_request_of (email ex_token) (record_pid ex_token) q"
    by (simp_all add: pid_resolve_def ex_state_def ex_token_def)
  note r = create_guest_access_request_single_use [OF g, where env = ex_env and s = ex_state]
  have first: "create_guest_access_request ex_env 500 ex_guest ''tok1'' ex_state = (Inr (Some ?q), ?s')"
    using r [of "''tok1''" 500] t pre
    by (simp add: Let_def ex_defs ex_request_def)
  from r [of "''unknown''" 500] r [of "''tok1''" 2000] r [of "''tok1''" 500] t first seen
  show ?thesis by simp
qed

end
